theory Spec2Isabelle
  imports Complex_Main "HOL-Library.Log_Nat"
begin

section \<open>JavaScript values reaching the payment code\<close>

text \<open>
  The request body is parsed JSON. The fields the validator computes with (\<open>bookId\<close>,
  \<open>quantity\<close>, \<open>price\<close>, \<open>amount\<close>) are modelled as absent (\<open>undefined\<close>), \<open>null\<close>, a boolean
  or a number; string-, array- and object-valued entries in these fields are not modelled.

  A number of the runtime is an IEEE 754 binary64 value. \<open>JNum x\<close> is the finite double whose
  value is the rational \<open>x\<close>, as \<open>JSON.parse\<close> delivers it (a literal that overflows to
  \<open>Infinity\<close> is not modelled as an input). The results of arithmetic are \<open>jsnum\<close>s: \<open>NaN\<close>, a
  finite value, or one of the infinities. The two zeros are not told apart: nothing in the
  payment code can observe the sign of a zero.
\<close>

datatype jsnum = NaN | Fin rat | PInf | NInf

datatype jsval = JUndefined | JNull | JBool bool | JNum rat

subsection \<open>Rounding to binary64\<close>

text \<open>\<open>pow2 k\<close> is 2 to the power \<open>k\<close>, for any integer \<open>k\<close>.\<close>

definition pow2 :: "int \<Rightarrow> rat" where
  "pow2 k = (if 0 \<le> k then 2 ^ nat k else 1 / 2 ^ nat (- k))"

text \<open>
  For \<open>x > 0\<close>, the exponent \<open>e\<close> with \<open>2^e \<le> x < 2^(e+1)\<close>, from the bit length of the integer
  part of \<open>x\<close>, or of \<open>1 / x\<close> when \<open>x < 1\<close>.
\<close>

definition binary_exponent :: "rat \<Rightarrow> int" where
  "binary_exponent x =
     (if 1 \<le> x then bitlen \<lfloor>x\<rfloor> - 1 else - bitlen (\<lceil>1 / x\<rceil> - 1))"

text \<open>The nearest integer, a tie going to the even one.\<close>

definition round_half_even :: "rat \<Rightarrow> int" where
  "round_half_even x =
     (let f = \<lfloor>x\<rfloor>; d = x - of_int f
      in if d < 1 / 2 then f else if 1 / 2 < d then f + 1 else if even f then f else f + 1)"

text \<open>
  Round to nearest, ties to even, with 53 significant bits: the spacing of the doubles
  around \<open>x\<close> is \<open>2^(e - 52)\<close>, where the exponent \<open>e\<close> is not taken below -1022 (the subnormal
  range); a result of magnitude \<open>2^1024\<close> or more is an infinity.
\<close>

definition round64 :: "rat \<Rightarrow> jsnum" where
  "round64 x =
     (if x = 0 then Fin 0
      else
        (let ulp = pow2 (max (binary_exponent \<bar>x\<bar>) (- 1022) - 52);
             r = of_int (round_half_even (x / ulp)) * ulp
         in if pow2 1024 \<le> \<bar>r\<bar> then (if 0 < x then PInf else NInf) else Fin r))"

subsection \<open>Operators\<close>

text \<open>\<open>!v\<close>: the values that count as false.\<close>

fun falsy :: "jsval \<Rightarrow> bool" where
  "falsy JUndefined = True"
| "falsy JNull = True"
| "falsy (JBool b) = (\<not> b)"
| "falsy (JNum n) = (n = 0)"

text \<open>
  Textual fields (\<open>paymentKey\<close>, \<open>orderId\<close> and the provider's strings) are a string or
  absent; \<open>!s\<close> holds of an absent and of an empty string.
\<close>

type_synonym jstext = "string option"

fun falsy_text :: "jstext \<Rightarrow> bool" where
  "falsy_text None = True"
| "falsy_text (Some s) = (s = [])"

text \<open>\<open>ToNumber\<close>, applied by \<open><=\<close> and \<open>*\<close> to an operand that is not a number.\<close>

fun to_number :: "jsval \<Rightarrow> jsnum" where
  "to_number JUndefined = NaN"
| "to_number JNull = Fin 0"
| "to_number (JBool b) = Fin (if b then 1 else 0)"
| "to_number (JNum n) = Fin n"

text \<open>\<open>x <= y\<close> and \<open>x >= y\<close>: false as soon as an operand is \<open>NaN\<close>.\<close>

fun num_le :: "jsnum \<Rightarrow> jsnum \<Rightarrow> bool" where
  "num_le NaN y = False"
| "num_le x NaN = False"
| "num_le NInf y = True"
| "num_le x PInf = True"
| "num_le (Fin a) (Fin b) = (a \<le> b)"
| "num_le PInf y = False"
| "num_le x NInf = False"

fun num_ge :: "jsnum \<Rightarrow> jsnum \<Rightarrow> bool" where
  "num_ge x y = num_le y x"

text \<open>
  \<open>x + y\<close>: the exact sum of two finite values, rounded; an infinity absorbs a finite value,
  and the sum of the two infinities is \<open>NaN\<close>.
\<close>

fun num_add :: "jsnum \<Rightarrow> jsnum \<Rightarrow> jsnum" where
  "num_add NaN y = NaN"
| "num_add x NaN = NaN"
| "num_add (Fin a) (Fin b) = round64 (a + b)"
| "num_add PInf NInf = NaN"
| "num_add NInf PInf = NaN"
| "num_add PInf y = PInf"
| "num_add NInf y = NInf"
| "num_add (Fin a) PInf = PInf"
| "num_add (Fin a) NInf = NInf"

text \<open>
  \<open>x * y\<close>: the exact product of two finite values, rounded; an infinity times zero is \<open>NaN\<close>,
  and otherwise an infinity with the product of the signs.
\<close>

fun num_mul :: "jsnum \<Rightarrow> jsnum \<Rightarrow> jsnum" where
  "num_mul NaN y = NaN"
| "num_mul x NaN = NaN"
| "num_mul (Fin a) (Fin b) = round64 (a * b)"
| "num_mul (Fin a) PInf = (if a = 0 then NaN else if 0 < a then PInf else NInf)"
| "num_mul (Fin a) NInf = (if a = 0 then NaN else if 0 < a then NInf else PInf)"
| "num_mul PInf (Fin b) = (if b = 0 then NaN else if 0 < b then PInf else NInf)"
| "num_mul NInf (Fin b) = (if b = 0 then NaN else if 0 < b then NInf else PInf)"
| "num_mul PInf PInf = PInf"
| "num_mul PInf NInf = NInf"
| "num_mul NInf PInf = NInf"
| "num_mul NInf NInf = PInf"

text \<open>
  \<open>x === v\<close> for a computed number \<open>x\<close>: no coercion; \<open>NaN\<close> equals nothing, and an infinity
  equals no finite number.
\<close>

fun strict_eq :: "jsnum \<Rightarrow> jsval \<Rightarrow> bool" where
  "strict_eq (Fin a) (JNum b) = (a = b)"
| "strict_eq _ _ = False"

text \<open>
  An element of a parsed array that is read with \<open>const { ... } = item\<close>: destructuring
  \<open>null\<close> throws a \<open>TypeError\<close>, anything else yields its fields.
\<close>

datatype 'a nullable = JsNull | JsObj 'a

datatype js_error = TypeError


section \<open>Product master cache\<close>

text \<open>
  A row of the \<open>books\<close> table, with the columns the payment code reads:
  \<open>id SERIAL PRIMARY KEY\<close> (here \<open>book_id\<close>), \<open>title\<close>, \<open>price INTEGER NOT NULL\<close> (here
  \<open>book_price\<close>) and \<open>is_active\<close>. The ids come from a sequence that starts at 1.
\<close>

record book =
  book_id :: int
  title :: string
  book_price :: int
  is_active :: bool

type_synonym books_map = "int \<rightharpoonup> book"

text \<open>
  \<open>refreshBooksCache\<close>: the rows selected with \<open>WHERE is_active = true\<close> become
  \<open>new Map(rows.map(b => [b.id, b]))\<close>; a later pair overwrites an earlier one.
\<close>

definition refreshBooksCache :: "book list \<Rightarrow> books_map" where
  "refreshBooksCache rows = fold (\<lambda>b m. m(book_id b \<mapsto> b)) (filter is_active rows) Map.empty"

text \<open>
  \<open>BOOKS_MAP_CACHE.get(bookId)\<close>: the keys are the numeric ids, and \<open>Map\<close> does not coerce,
  so only a number equal to an id finds a book.
\<close>

fun map_get :: "books_map \<Rightarrow> jsval \<Rightarrow> book option" where
  "map_get m (JNum n) = (if of_int \<lfloor>n\<rfloor> = n then m \<lfloor>n\<rfloor> else None)"
| "map_get m JUndefined = None"
| "map_get m JNull = None"
| "map_get m (JBool b) = None"


section \<open>The amount validator\<close>

text \<open>One entry of \<open>items\<close>; \<open>price\<close> is the client's price (\<open>clientPrice\<close> in the code).\<close>

record cart_line =
  bookId :: jsval
  quantity :: jsval
  price :: jsval

text \<open>
  The \<open>error\<close> texts of the validator, by template, with the interpolated values:
  no items; malformed line item; product does not exist (ID); price of the titled book does
  not match (server price, client price); payment amount does not match (calculated amount,
  requested amount).
\<close>

datatype reason =
    NoItems
  | InvalidLineItem
  | ProductNotFound jsval
  | PriceMismatch string int jsval
  | TotalMismatch jsnum jsval

text \<open>The object returned: \<open>{ valid, error, calculatedTotal }\<close>, absent properties as \<open>None\<close>.\<close>

record validation =
  valid :: bool
  error :: "reason option"
  calculatedTotal :: "jsnum option"

text \<open>
  The \<open>for (const item of items)\<close> loop with its accumulator \<open>calculatedSubtotal\<close>: it runs to
  the end, returns from the function, or throws.
\<close>

datatype loop = Subtotal jsnum | Return validation | Throw js_error

fun for_items :: "books_map \<Rightarrow> cart_line nullable list \<Rightarrow> jsnum \<Rightarrow> loop" where
  "for_items cache [] calculatedSubtotal = Subtotal calculatedSubtotal"
| "for_items cache (JsNull # rest) calculatedSubtotal = Throw TypeError"
| "for_items cache (JsObj item # rest) calculatedSubtotal =
     (if falsy (bookId item) \<or> falsy (quantity item)
         \<or> num_le (to_number (quantity item)) (Fin 0)
      then Return \<lparr>valid = False, error = Some InvalidLineItem, calculatedTotal = None\<rparr>
      else
        (case map_get cache (bookId item) of
           None \<Rightarrow>
             Return \<lparr>valid = False, error = Some (ProductNotFound (bookId item)),
                     calculatedTotal = None\<rparr>
         | Some masterBook \<Rightarrow>
             (let serverPrice = book_price masterBook in
              if price item \<noteq> JNum (of_int serverPrice)
              then Return \<lparr>valid = False,
                     error = Some (PriceMismatch (title masterBook) serverPrice (price item)),
                     calculatedTotal = None\<rparr>
              else for_items cache rest
                     (num_add calculatedSubtotal
                        (num_mul (Fin (of_int serverPrice)) (to_number (quantity item)))))))"

definition shippingFee :: "jsnum \<Rightarrow> jsnum" where
  "shippingFee calculatedSubtotal =
     (if num_ge calculatedSubtotal (Fin 30000) then Fin 0 else Fin 3000)"

text \<open>
  \<open>validatePaymentAmount(items, expectedTotal)\<close>, reading the global \<open>BOOKS_MAP_CACHE\<close>.
  \<open>items = None\<close> stands for a value that is not an array.
\<close>

definition validatePaymentAmount ::
  "books_map \<Rightarrow> cart_line nullable list option \<Rightarrow> jsval \<Rightarrow> js_error + validation" where
  "validatePaymentAmount cache items expectedTotal =
     (case items of
        None \<Rightarrow> Inr \<lparr>valid = False, error = Some NoItems, calculatedTotal = None\<rparr>
      | Some [] \<Rightarrow> Inr \<lparr>valid = False, error = Some NoItems, calculatedTotal = None\<rparr>
      | Some (first # rest) \<Rightarrow>
          (case for_items cache (first # rest) (Fin 0) of
             Throw e \<Rightarrow> Inl e
           | Return r \<Rightarrow> Inr r
           | Subtotal calculatedSubtotal \<Rightarrow>
               (let calculatedTotal = num_add calculatedSubtotal (shippingFee calculatedSubtotal) in
                if \<not> strict_eq calculatedTotal expectedTotal
                then Inr \<lparr>valid = False,
                       error = Some (TotalMismatch calculatedTotal expectedTotal),
                       calculatedTotal = Some calculatedTotal\<rparr>
                else Inr \<lparr>valid = True, error = None,
                       calculatedTotal = Some calculatedTotal\<rparr>)))"


section \<open>The total as the specification words it\<close>

text \<open>
  A line matches the master data when the lookup of its \<open>bookId\<close> finds a book, its client
  price is that book's price, and its quantity is a number greater than 0.
\<close>

fun matches_master :: "books_map \<Rightarrow> cart_line nullable \<Rightarrow> bool" where
  "matches_master cache JsNull = False"
| "matches_master cache (JsObj l) =
     (case map_get cache (bookId l) of
        None \<Rightarrow> False
      | Some b \<Rightarrow>
          price l = JNum (of_int (book_price b))
          \<and> (case quantity l of JNum q \<Rightarrow> 0 < q | _ \<Rightarrow> False))"

text \<open>Master price times quantity of one line (0 where either is missing).\<close>

fun line_amount :: "books_map \<Rightarrow> cart_line nullable \<Rightarrow> rat" where
  "line_amount cache JsNull = 0"
| "line_amount cache (JsObj l) =
     (case map_get cache (bookId l) of
        None \<Rightarrow> 0
      | Some b \<Rightarrow> (case quantity l of JNum q \<Rightarrow> of_int (book_price b) * q | _ \<Rightarrow> 0))"

definition spec_subtotal :: "books_map \<Rightarrow> cart_line nullable list \<Rightarrow> rat" where
  "spec_subtotal cache ls = sum_list (map (line_amount cache) ls)"

definition spec_shipping :: "rat \<Rightarrow> rat" where
  "spec_shipping subtotal = (if 30000 \<le> subtotal then 0 else 3000)"

definition spec_total :: "books_map \<Rightarrow> cart_line nullable list \<Rightarrow> rat" where
  "spec_total cache ls = spec_subtotal cache ls + spec_shipping (spec_subtotal cache ls)"

text \<open>
  The sums above are exact. The runtime computes them without rounding when every product,
  every partial sum and the total is itself a double.
\<close>

definition representable :: "rat \<Rightarrow> bool" where
  "representable x \<longleftrightarrow> round64 x = Fin x"

fun exact_run :: "books_map \<Rightarrow> cart_line nullable list \<Rightarrow> rat \<Rightarrow> bool" where
  "exact_run cache [] acc = True"
| "exact_run cache (l # ls) acc =
     (representable (line_amount cache l)
      \<and> representable (acc + line_amount cache l)
      \<and> exact_run cache ls (acc + line_amount cache l))"

definition no_rounding :: "books_map \<Rightarrow> cart_line nullable list \<Rightarrow> bool" where
  "no_rounding cache ls \<longleftrightarrow> exact_run cache ls 0 \<and> representable (spec_total cache ls)"

text \<open>
  A sufficient condition in terms of the cart alone: the quantities are whole numbers, and the
  sum of the magnitudes of the line amounts, with the largest shipping fee added, does not
  exceed \<open>2^53 = 9007199254740992\<close>.
\<close>

fun whole_quantity :: "cart_line nullable \<Rightarrow> bool" where
  "whole_quantity JsNull = False"
| "whole_quantity (JsObj l) = (case quantity l of JNum q \<Rightarrow> of_int \<lfloor>q\<rfloor> = q | _ \<Rightarrow> False)"

definition spec_magnitude :: "books_map \<Rightarrow> cart_line nullable list \<Rightarrow> rat" where
  "spec_magnitude cache ls = sum_list (map (\<lambda>l. \<bar>line_amount cache l\<bar>) ls)"


section \<open>Payment confirmation\<close>

text \<open>The JSON body of \<open>POST /api/payments/confirm\<close>; \<open>items = None\<close> is a value that is
  absent or not an array.\<close>

record confirm_body =
  paymentKey :: jstext
  orderId :: jstext
  amount :: jsval
  items :: "cart_line nullable list option"

text \<open>The body sent to the provider's confirm operation.\<close>

record toss_request =
  req_paymentKey :: jstext
  req_orderId :: jstext
  req_amount :: jsval

text \<open>The fields of the provider's parsed reply (\<open>tossResult\<close>) that the handler reads.\<close>

record toss_result =
  toss_code :: jstext
  toss_message :: jstext
  toss_orderId :: jstext
  toss_paymentKey :: jstext
  toss_orderName :: jstext
  toss_totalAmount :: jsval
  toss_status :: jstext
  toss_method :: jstext
  toss_approvedAt :: jstext

text \<open>
  \<open>await fetch(...)\<close> followed by \<open>await tossResponse.json()\<close>: either promise is rejected,
  or there is a reply with its \<open>ok\<close> flag, its HTTP status and its parsed body.
\<close>

datatype toss_outcome = Rejected | Responded bool int "toss_result nullable"

text \<open>A row of the \<open>orders\<close> table (\<open>order_pk\<close> is the column \<open>id\<close>, \<open>pay_method\<close> the column
  \<open>method\<close>). The parameters of the \<open>INSERT\<close> are stored as bound.\<close>

record order_row =
  order_pk :: int
  user_id :: int
  order_id :: jstext
  payment_key :: jstext
  order_name :: jstext
  total_amount :: jsval
  status :: jstext
  pay_method :: jstext
  order_items :: "cart_line nullable list"
  payment_response :: toss_result
  created_at :: int
  approved_at :: int

record database =
  orders :: "order_row list"
  orders_id_seq :: int

text \<open>The columns \<open>GET /api/orders\<close> selects.\<close>

record order_view =
  view_id :: int
  view_order_id :: jstext
  view_order_name :: jstext
  view_total_amount :: jsval
  view_status :: jstext
  view_method :: jstext
  view_items :: "cart_line nullable list"
  view_created_at :: int
  view_approved_at :: int

text \<open>
  The replies of the two handlers: 400 for missing fields, 400 for missing items, 400 with the
  validator's \<open>error\<close> as \<open>detail\<close>, the provider's status with its \<open>code\<close> and \<open>message\<close>, 200
  with \<open>orderId\<close>, \<open>totalAmount\<close>, \<open>method\<close>, \<open>status\<close>, \<open>approvedAt\<close>, 200 with the list of
  orders, and the 500 of the \<open>catch\<close> block.
\<close>

datatype response =
    MissingFields
  | MissingItems
  | AmountRejected "reason option"
  | ProviderFailed int jstext jstext
  | Completed jstext jsval jstext jstext jstext
  | OrderList "order_view list"
  | ServerError

text \<open>
  The handler of \<open>POST /api/payments/confirm\<close>, after the rate limiter and
  \<open>authenticateToken\<close> have let the request through with \<open>req.user.id = uid\<close>. The provider is
  the function \<open>toss\<close>; \<open>pg_accepts\<close> tells whether the database takes the row (its constraints
  hold) and \<open>now\<close> is the value of \<open>NOW()\<close>. A failed \<open>INSERT\<close> still advances the sequence of
  \<open>id\<close>. Console logging is not part of the modelled state.
\<close>

definition post_payments_confirm ::
  "books_map \<Rightarrow> (toss_request \<Rightarrow> toss_outcome) \<Rightarrow> (order_row list \<Rightarrow> order_row \<Rightarrow> bool) \<Rightarrow> int
     \<Rightarrow> int \<Rightarrow> confirm_body \<Rightarrow> database \<Rightarrow> response \<times> database" where
  "post_payments_confirm cache toss pg_accepts now uid body db =
     (if falsy_text (paymentKey body) \<or> falsy_text (orderId body) \<or> falsy (amount body)
      then (MissingFields, db)
      else if items body = None \<or> items body = Some []
      then (MissingItems, db)
      else
        (case validatePaymentAmount cache (items body) (amount body) of
           Inl e \<Rightarrow> (ServerError, db)
         | Inr validation \<Rightarrow>
             if \<not> valid validation
             then (AmountRejected (error validation), db)
             else
               (case toss \<lparr>req_paymentKey = paymentKey body, req_orderId = orderId body,
                           req_amount = amount body\<rparr> of
                  Rejected \<Rightarrow> (ServerError, db)
                | Responded ok http_status JsNull \<Rightarrow> (ServerError, db)
                | Responded ok http_status (JsObj tossResult) \<Rightarrow>
                    if \<not> ok
                    then (ProviderFailed http_status (toss_code tossResult)
                            (toss_message tossResult), db)
                    else
                      (let row = \<lparr>order_pk = orders_id_seq db + 1,
                                  user_id = uid,
                                  order_id = toss_orderId tossResult,
                                  payment_key = toss_paymentKey tossResult,
                                  order_name = toss_orderName tossResult,
                                  total_amount = toss_totalAmount tossResult,
                                  status = toss_status tossResult,
                                  pay_method = toss_method tossResult,
                                  order_items = (case items body of None \<Rightarrow> [] | Some its \<Rightarrow> its),
                                  payment_response = tossResult,
                                  created_at = now,
                                  approved_at = now\<rparr>;
                           db1 = db\<lparr>orders_id_seq := orders_id_seq db + 1\<rparr>
                       in if \<not> pg_accepts (orders db) row
                          then (ServerError, db1)
                          else (Completed (toss_orderId tossResult) (toss_totalAmount tossResult)
                                  (toss_method tossResult) (toss_status tossResult)
                                  (toss_approvedAt tossResult),
                                db1\<lparr>orders := orders db @ [row]\<rparr>)))))"


section \<open>Order history\<close>

text \<open>
  The query of \<open>GET /api/orders\<close>:
  \<open>SELECT ... FROM orders WHERE user_id = $1 ORDER BY created_at DESC LIMIT 50\<close>.
  Rows with equal \<open>created_at\<close> keep their table order here; SQL leaves their order open.
\<close>

definition select_user_orders :: "order_row list \<Rightarrow> int \<Rightarrow> order_row list" where
  "select_user_orders tbl uid =
     take 50 (sort_key (\<lambda>r. - created_at r) (filter (\<lambda>r. user_id r = uid) tbl))"

definition to_view :: "order_row \<Rightarrow> order_view" where
  "to_view r = \<lparr>view_id = order_pk r, view_order_id = order_id r,
                view_order_name = order_name r, view_total_amount = total_amount r,
                view_status = status r, view_method = pay_method r, view_items = order_items r,
                view_created_at = created_at r, view_approved_at = approved_at r\<rparr>"

text \<open>The handler; \<open>pg_up = False\<close> is a query that fails, caught with a 500.\<close>

definition get_orders :: "bool \<Rightarrow> database \<Rightarrow> int \<Rightarrow> response" where
  "get_orders pg_up db uid =
     (if pg_up then OrderList (map to_view (select_user_orders (orders db) uid))
      else ServerError)"


section \<open>Sample data\<close>

text \<open>A small \<open>books\<close> table: three active rows and one deactivated row.\<close>

definition sample_books :: "book list" where
  "sample_books =
     [\<lparr>book_id = 1, title = ''Modern JavaScript Deep Dive'', book_price = 45000, is_active = True\<rparr>,
      \<lparr>book_id = 2, title = ''Clean Code'', book_price = 29700, is_active = False\<rparr>,
      \<lparr>book_id = 3, title = ''Demian'', book_price = 8100, is_active = True\<rparr>,
      \<lparr>book_id = 4, title = ''Sapiens'', book_price = 21900, is_active = True\<rparr>]"

definition sample_cache :: books_map where
  "sample_cache = refreshBooksCache sample_books"

definition line :: "rat \<Rightarrow> rat \<Rightarrow> rat \<Rightarrow> cart_line nullable" where
  "line b q p = JsObj \<lparr>bookId = JNum b, quantity = JNum q, price = JNum p\<rparr>"

text \<open>A confirmation request for one copy of the book 1, claiming its price as the total.\<close>

definition sample_body :: confirm_body where
  "sample_body = \<lparr>paymentKey = Some ''test-key'', orderId = Some ''test-order'',
                   amount = JNum 45000, items = Some [line 1 1 45000]\<rparr>"

text \<open>Three providers: one confirms and returns the amount it was asked to confirm, one
  confirms and returns another total, one refuses.\<close>

definition toss_confirms :: "toss_request \<Rightarrow> toss_outcome" where
  "toss_confirms req =
     Responded True 200
       (JsObj \<lparr>toss_code = None, toss_message = None, toss_orderId = req_orderId req,
               toss_paymentKey = req_paymentKey req, toss_orderName = Some ''Books'',
               toss_totalAmount = req_amount req, toss_status = Some ''DONE'',
               toss_method = Some ''CARD'', toss_approvedAt = Some ''2026-01-01T00:00:00''\<rparr>)"

definition toss_other_total :: "toss_request \<Rightarrow> toss_outcome" where
  "toss_other_total req =
     Responded True 200
       (JsObj \<lparr>toss_code = None, toss_message = None, toss_orderId = req_orderId req,
               toss_paymentKey = req_paymentKey req, toss_orderName = Some ''Books'',
               toss_totalAmount = JNum 1000, toss_status = Some ''DONE'',
               toss_method = Some ''CARD'', toss_approvedAt = Some ''2026-01-01T00:00:00''\<rparr>)"

definition toss_refuses :: "toss_request \<Rightarrow> toss_outcome" where
  "toss_refuses req =
     Responded False 400
       (JsObj \<lparr>toss_code = Some ''REJECT_CARD_PAYMENT'', toss_message = Some ''card refused'',
               toss_orderId = None, toss_paymentKey = None, toss_orderName = None,
               toss_totalAmount = JUndefined, toss_status = None, toss_method = None,
               toss_approvedAt = None\<rparr>)"

definition pg_accepts_all :: "order_row list \<Rightarrow> order_row \<Rightarrow> bool" where
  "pg_accepts_all tbl row = True"

definition empty_db :: database where
  "empty_db = \<lparr>orders = [], orders_id_seq = 0\<rparr>"

text \<open>An order of the user \<open>uid\<close> created at the time \<open>t\<close>, and a table of three orders.\<close>

definition sample_order :: "int \<Rightarrow> int \<Rightarrow> int \<Rightarrow> order_row" where
  "sample_order pk uid t =
     \<lparr>order_pk = pk, user_id = uid, order_id = Some ''order'', payment_key = Some ''key'',
      order_name = Some ''Books'', total_amount = JNum 45000, status = Some ''DONE'',
      pay_method = Some ''CARD'', order_items = [line 1 1 45000],
      payment_response =
        \<lparr>toss_code = None, toss_message = None, toss_orderId = Some ''order'',
         toss_paymentKey = Some ''key'', toss_orderName = Some ''Books'',
         toss_totalAmount = JNum 45000, toss_status = Some ''DONE'',
         toss_method = Some ''CARD'', toss_approvedAt = Some ''2026-01-01T00:00:00''\<rparr>,
      created_at = t, approved_at = t\<rparr>"

definition sample_db :: database where
  "sample_db = \<lparr>orders = [sample_order 1 7 100, sample_order 2 8 200, sample_order 3 7 300],
                 orders_id_seq = 3\<rparr>"

section \<open>Facts about the sample data\<close>

lemma refreshBooksCache_no_zero:
  "\<forall>b \<in> set rows. book_id b \<noteq> 0 \<Longrightarrow> refreshBooksCache rows 0 = None"
proof -
  have "\<forall>b \<in> set bs. book_id b \<noteq> 0 \<Longrightarrow> m 0 = None
          \<Longrightarrow> fold (\<lambda>b m. m(book_id b \<mapsto> b)) bs m 0 = None" for bs and m :: books_map
    by (induction bs arbitrary: m) auto
  from this [of "filter is_active rows" Map.empty]
  show "\<forall>b \<in> set rows. book_id b \<noteq> 0 \<Longrightarrow> refreshBooksCache rows 0 = None"
    by (simp add: refreshBooksCache_def)
qed

lemma sample_cache_eq:
  "sample_cache =
     [1 \<mapsto> \<lparr>book_id = 1, title = ''Modern JavaScript Deep Dive'', book_price = 45000, is_active = True\<rparr>,
      3 \<mapsto> \<lparr>book_id = 3, title = ''Demian'', book_price = 8100, is_active = True\<rparr>,
      4 \<mapsto> \<lparr>book_id = 4, title = ''Sapiens'', book_price = 21900, is_active = True\<rparr>]"
  by (simp add: sample_cache_def refreshBooksCache_def sample_books_def)

lemma sample_cache_get [simp]:
  "sample_cache 1
     = Some \<lparr>book_id = 1, title = ''Modern JavaScript Deep Dive'', book_price = 45000, is_active = True\<rparr>"
  "sample_cache 3
     = Some \<lparr>book_id = 3, title = ''Demian'', book_price = 8100, is_active = True\<rparr>"
  "sample_cache 4
     = Some \<lparr>book_id = 4, title = ''Sapiens'', book_price = 21900, is_active = True\<rparr>"
  "sample_cache 2 = None"
  "sample_cache 999 = None"
  "sample_cache 0 = None"
  by (simp_all add: sample_cache_eq)


section \<open>Values that are not rounded\<close>

lemma floor_rat_numeral [simp]:
  "\<lfloor>numeral a / numeral b :: rat\<rfloor> = numeral a div numeral b"
  using floor_divide_of_int_eq [of "numeral a" "numeral b", where ?'a = rat] by simp

lemma ceiling_rat_numeral [simp]:
  "\<lceil>numeral a / numeral b :: rat\<rceil> = - ((- numeral a) div numeral b)"
  using ceiling_divide_eq_div [of "numeral a" "numeral b", where ?'a = rat] by simp

lemma pow2_pos: "0 < pow2 k"
  by (simp add: pow2_def)

lemma round_half_even_of_int: "round_half_even (of_int m) = m"
  by (simp add: round_half_even_def)

text \<open>A value that is a whole multiple of the spacing around it, below \<open>2^1024\<close>, is kept.\<close>

lemma round64_exact:
  assumes "x / pow2 (max (binary_exponent \<bar>x\<bar>) (- 1022) - 52) = of_int m"
    and "\<bar>x\<bar> < pow2 1024"
  shows "round64 x = Fin x"
proof (cases "x = 0")
  case True
  then show ?thesis by (simp add: round64_def)
next
  case False
  let ?u = "pow2 (max (binary_exponent \<bar>x\<bar>) (- 1022) - 52)"
  have u: "?u \<noteq> 0"
    using pow2_pos [of "max (binary_exponent \<bar>x\<bar>) (- 1022) - 52"] by simp
  have "round_half_even (x / ?u) = m"
    by (simp only: assms(1) round_half_even_of_int)
  moreover have "of_int m * ?u = x"
    using assms(1) u by (simp add: nonzero_divide_eq_eq)
  ultimately have "of_int (round_half_even (x / ?u)) * ?u = x"
    by simp
  with False assms(2) show ?thesis
    by (simp add: round64_def Let_def)
qed

lemma bitlen_ge_one: "0 < a \<Longrightarrow> 1 \<le> bitlen a"
  using bitlen_eq_zero_iff [of a] bitlen_nonneg [of a] by linarith

text \<open>Every integer of magnitude up to \<open>2^53\<close> is a double.\<close>

lemma round64_of_int:
  assumes "\<bar>n\<bar> \<le> 9007199254740992"
  shows "round64 (of_int n) = Fin (of_int n)"
proof (cases "n = 0")
  case True
  then show ?thesis by (simp add: round64_def)
next
  case False
  define a where "a = \<bar>n\<bar>"
  define e where "e = bitlen a - 1"
  have a: "0 < a" "a \<le> 2 ^ 53"
    using False assms by (simp_all add: a_def)
  have e0: "0 \<le> e"
    using bitlen_ge_one [OF a(1)] by (simp add: e_def)
  have lo: "2 ^ nat e \<le> a"
    using bitlen_bounds [OF a(1)] by (simp add: e_def)
  then have "(2::int) ^ nat e \<le> 2 ^ 53"
    using a(2) by linarith
  then have e53: "nat e \<le> 53"
    by (rule power_le_imp_le_exp [rotated]) simp
  have bx: "binary_exponent \<bar>of_int n :: rat\<bar> = e"
  proof -
    have "\<bar>of_int n :: rat\<bar> = of_int a"
      by (simp add: a_def)
    moreover have "(1::rat) \<le> of_int a"
      using a(1) by linarith
    ultimately show ?thesis
      by (simp add: binary_exponent_def e_def)
  qed
  have mx: "max e (- 1022) = e"
    using e0 by simp
  have small: "\<bar>of_int n :: rat\<bar> < pow2 1024"
  proof -
    have "\<bar>n\<bar> < 2 ^ 1024"
      using assms by (rule le_less_trans) simp
    then have "(of_int \<bar>n\<bar> :: rat) < of_int (2 ^ 1024)"
      by (simp only: of_int_less_iff)
    then show ?thesis
      by (simp add: pow2_def)
  qed
  show ?thesis
  proof (cases "e \<le> 52")
    case True
    define j where "j = nat (52 - e)"
    have p: "pow2 (e - 52) = 1 / 2 ^ j"
      using True by (auto simp: pow2_def j_def)
    have "of_int n / pow2 (e - 52) = (of_int (n * 2 ^ j) :: rat)"
      by (simp add: p)
    then show ?thesis
      using round64_exact [of "of_int n" "n * 2 ^ j"] small by (simp only: bx mx)
  next
    case False
    with e53 e0 have e: "e = 53"
      by linarith
    with lo a(2) have "a = 2 ^ 53"
      by simp
    then have "n = 2 ^ 53 \<or> n = - (2 ^ 53)"
      by (auto simp: a_def abs_if split: if_splits)
    then obtain m where m: "n = 2 * m"
      by auto
    have "of_int n / pow2 (e - 52) = (of_int m :: rat)"
      by (simp add: e pow2_def m)
    then show ?thesis
      using round64_exact [of "of_int n" m] small by (simp only: bx mx)
  qed
qed

lemma round64_numeral [simp]:
  "numeral k \<le> (9007199254740992 :: int) \<Longrightarrow> round64 (numeral k) = Fin (numeral k)"
  "numeral k \<le> (9007199254740992 :: int) \<Longrightarrow> round64 (- numeral k) = Fin (- numeral k)"
  "round64 0 = Fin 0"
  "round64 1 = Fin 1"
  using round64_of_int [of "numeral k"] round64_of_int [of "- numeral k"] round64_of_int [of 0]
    round64_of_int [of 1]
  by simp_all

lemma representable_of_int:
  "\<bar>of_int n :: rat\<bar> \<le> 9007199254740992 \<Longrightarrow> representable (of_int n)"
proof -
  assume "\<bar>of_int n :: rat\<bar> \<le> 9007199254740992"
  then have "(of_int \<bar>n\<bar> :: rat) \<le> of_int 9007199254740992"
    by simp
  then have "\<bar>n\<bar> \<le> 9007199254740992"
    by (simp only: of_int_le_iff)
  then show ?thesis
    unfolding representable_def by (rule round64_of_int)
qed


section \<open>The loop over matching lines\<close>

lemma matches_master_step:
  assumes "cache 0 = None" and "matches_master cache (JsObj l)"
  shows "for_items cache (JsObj l # rest) acc
           = for_items cache rest (num_add acc (round64 (line_amount cache (JsObj l))))"
proof -
  from assms(2) obtain b where b: "map_get cache (bookId l) = Some b"
    by (auto split: option.splits)
  with assms(2) have p: "price l = JNum (of_int (book_price b))"
    by simp
  from assms(2) b obtain q where q: "quantity l = JNum q" "0 < q"
    by (auto split: jsval.splits)
  from b obtain n where n: "bookId l = JNum n" "of_int \<lfloor>n\<rfloor> = n" "cache \<lfloor>n\<rfloor> = Some b"
    by (cases "bookId l") (auto split: if_splits)
  have "n \<noteq> 0"
    using n(3) assms(1) by auto
  with n q b p show ?thesis
    by simp
qed

text \<open>Matching lines in front of a list only change the accumulator.\<close>

lemma for_items_prefix:
  assumes "cache 0 = None" and "\<forall>l \<in> set pre. matches_master cache l"
  shows "\<exists>acc'. for_items cache (pre @ rest) acc = for_items cache rest acc'"
  using assms(2)
proof (induction pre arbitrary: acc)
  case Nil
  show ?case by auto
next
  case (Cons x xs)
  from Cons.prems obtain l where x: "x = JsObj l"
    by (cases x) auto
  have "for_items cache ((x # xs) @ rest) acc
          = for_items cache (xs @ rest) (num_add acc (round64 (line_amount cache x)))"
    using matches_master_step [where cache = cache and l = l] assms(1) Cons.prems x by simp
  moreover from Cons.IH [of "num_add acc (round64 (line_amount cache x))"] Cons.prems
  obtain acc' where "for_items cache (xs @ rest) (num_add acc (round64 (line_amount cache x)))
                       = for_items cache rest acc'"
    by auto
  ultimately show ?case
    by auto
qed

lemma for_items_matching:
  assumes "cache 0 = None" and "\<forall>l \<in> set ls. matches_master cache l"
  shows "\<exists>s. for_items cache ls acc = Subtotal s"
  using for_items_prefix [OF assms, of "[]" acc] by simp

text \<open>Where nothing is rounded, the loop ends with the exact subtotal.\<close>

lemma for_items_exact:
  assumes "cache 0 = None" and "\<forall>l \<in> set ls. matches_master cache l"
    and "exact_run cache ls a"
  shows "for_items cache ls (Fin a) = Subtotal (Fin (a + spec_subtotal cache ls))"
  using assms(2,3)
proof (induction ls arbitrary: a)
  case Nil
  show ?case by (simp add: spec_subtotal_def)
next
  case (Cons x xs)
  from Cons.prems obtain l where x: "x = JsObj l"
    by (cases x) auto
  from Cons.prems(2) have r1: "round64 (line_amount cache x) = Fin (line_amount cache x)"
    and r2: "round64 (a + line_amount cache x) = Fin (a + line_amount cache x)"
    and rest: "exact_run cache xs (a + line_amount cache x)"
    by (simp_all add: representable_def)
  have "for_items cache (x # xs) (Fin a)
          = for_items cache xs (num_add (Fin a) (round64 (line_amount cache x)))"
    using matches_master_step [where cache = cache and l = l] assms(1) Cons.prems(1) x by simp
  also have "\<dots> = for_items cache xs (Fin (a + line_amount cache x))"
    by (simp add: r1 r2)
  also have "\<dots> = Subtotal (Fin (a + line_amount cache x + spec_subtotal cache xs))"
    using Cons.IH [OF _ rest] Cons.prems(1) by simp
  finally show ?case
    by (simp add: spec_subtotal_def add.assoc)
qed

text \<open>The result of the validator once the loop has run to its end.\<close>

lemma validate_of_subtotal:
  assumes "ls \<noteq> []" and "for_items cache ls (Fin 0) = Subtotal s"
  shows "validatePaymentAmount cache (Some ls) claimedTotal =
           Inr (if strict_eq (num_add s (shippingFee s)) claimedTotal
                then \<lparr>valid = True, error = None,
                       calculatedTotal = Some (num_add s (shippingFee s))\<rparr>
                else \<lparr>valid = False,
                       error = Some (TotalMismatch (num_add s (shippingFee s)) claimedTotal),
                       calculatedTotal = Some (num_add s (shippingFee s))\<rparr>)"
proof -
  obtain x xs where ls: "ls = x # xs"
    using assms(1) by (cases ls) auto
  have loop: "for_items cache (x # xs) (Fin 0) = Subtotal s"
    using assms(2) ls by simp
  show ?thesis
    unfolding validatePaymentAmount_def ls option.case list.case loop loop.case Let_def
    by simp
qed

text \<open>The result of the validator on a non-empty list of matching lines without rounding.\<close>

lemma validate_matching:
  assumes "cache 0 = None" and "ls \<noteq> []" and "\<forall>l \<in> set ls. matches_master cache l"
    and "no_rounding cache ls"
  shows "validatePaymentAmount cache (Some ls) claimedTotal =
           Inr (if claimedTotal = JNum (spec_total cache ls)
                then \<lparr>valid = True, error = None,
                       calculatedTotal = Some (Fin (spec_total cache ls))\<rparr>
                else \<lparr>valid = False,
                       error = Some (TotalMismatch (Fin (spec_total cache ls)) claimedTotal),
                       calculatedTotal = Some (Fin (spec_total cache ls))\<rparr>)"
proof -
  have loop: "for_items cache ls (Fin 0) = Subtotal (Fin (spec_subtotal cache ls))"
    using for_items_exact [OF assms(1,3), of 0] assms(4) by (simp add: no_rounding_def)
  have fee: "shippingFee (Fin (spec_subtotal cache ls))
               = Fin (spec_shipping (spec_subtotal cache ls))"
    by (simp add: shippingFee_def spec_shipping_def)
  have total: "num_add (Fin (spec_subtotal cache ls)) (shippingFee (Fin (spec_subtotal cache ls)))
                 = Fin (spec_total cache ls)"
    using assms(4) by (simp add: fee no_rounding_def representable_def spec_total_def)
  have eq: "strict_eq (Fin (spec_total cache ls)) claimedTotal
              \<longleftrightarrow> claimedTotal = JNum (spec_total cache ls)"
    by (cases claimedTotal) auto
  show ?thesis
    unfolding validate_of_subtotal [OF assms(2) loop] total eq ..
qed

lemma matches_master_line [simp]:
  "matches_master cache (line b q p)
     \<longleftrightarrow> (case map_get cache (JNum b) of None \<Rightarrow> False
                        | Some bk \<Rightarrow> p = of_int (book_price bk) \<and> 0 < q)"
  by (simp add: line_def split: option.splits)

lemma line_amount_line [simp]:
  "line_amount cache (line b q p)
     = (case map_get cache (JNum b) of None \<Rightarrow> 0 | Some bk \<Rightarrow> of_int (book_price bk) * q)"
  by (simp add: line_def split: option.splits)

lemma whole_quantity_line [simp]:
  "whole_quantity (line b q p) \<longleftrightarrow> of_int \<lfloor>q\<rfloor> = q"
  by (simp add: line_def)


section \<open>Carts of whole quantities\<close>

lemma line_amount_whole:
  assumes "matches_master cache l" and "whole_quantity l"
  shows "\<exists>k. line_amount cache l = of_int k"
proof (cases l)
  case JsNull
  with assms show ?thesis by simp
next
  case (JsObj c)
  from assms(1) JsObj obtain b where b: "map_get cache (bookId c) = Some b"
    by (auto split: option.splits)
  from assms(2) JsObj obtain q where q: "quantity c = JNum q" "of_int \<lfloor>q\<rfloor> = q"
    by (auto split: jsval.splits)
  have "line_amount cache l = of_int (book_price b) * q"
    using JsObj b q(1) by simp
  also have "\<dots> = of_int (book_price b) * of_int \<lfloor>q\<rfloor>"
    by (simp only: q(2))
  also have "\<dots> = of_int (book_price b * \<lfloor>q\<rfloor>)"
    by simp
  finally show ?thesis ..
qed

lemma spec_magnitude_nonneg: "0 \<le> spec_magnitude cache ls"
  unfolding spec_magnitude_def by (induction ls) auto

lemma spec_subtotal_bound: "\<bar>spec_subtotal cache ls\<bar> \<le> spec_magnitude cache ls"
  unfolding spec_subtotal_def spec_magnitude_def by (induction ls) auto

lemma spec_subtotal_whole:
  assumes "\<forall>l \<in> set ls. matches_master cache l \<and> whole_quantity l"
  shows "\<exists>k. spec_subtotal cache ls = of_int k"
  using assms
proof (induction ls)
  case Nil
  have "spec_subtotal cache [] = of_int 0"
    by (simp add: spec_subtotal_def)
  then show ?case ..
next
  case (Cons x xs)
  from Cons.prems line_amount_whole [of cache x] obtain k where k: "line_amount cache x = of_int k"
    by auto
  from Cons obtain j where j: "spec_subtotal cache xs = of_int j"
    by auto
  have "spec_subtotal cache (x # xs) = of_int (k + j)"
    using k j by (simp add: spec_subtotal_def)
  then show ?case ..
qed

lemma exact_run_whole:
  assumes "\<forall>l \<in> set ls. matches_master cache l \<and> whole_quantity l"
    and "\<bar>of_int n :: rat\<bar> + spec_magnitude cache ls \<le> 9007199254740992"
  shows "exact_run cache ls (of_int n)"
  using assms
proof (induction ls arbitrary: n)
  case Nil
  show ?case by simp
next
  case (Cons x xs)
  from Cons.prems(1) line_amount_whole [of cache x] obtain k where k: "line_amount cache x = of_int k"
    by auto
  have mag: "spec_magnitude cache (x # xs) = \<bar>of_int k :: rat\<bar> + spec_magnitude cache xs"
    by (simp add: spec_magnitude_def k)
  have nn: "0 \<le> spec_magnitude cache xs"
    by (rule spec_magnitude_nonneg)
  have "\<bar>of_int k :: rat\<bar> \<le> 9007199254740992"
    using Cons.prems(2) nn unfolding mag by linarith
  then have r1: "representable (line_amount cache x)"
    unfolding k by (rule representable_of_int)
  have sum: "of_int n + line_amount cache x = (of_int (n + k) :: rat)"
    by (simp add: k)
  have tri: "\<bar>of_int (n + k) :: rat\<bar> \<le> \<bar>of_int n :: rat\<bar> + \<bar>of_int k :: rat\<bar>"
    by simp
  have bound: "\<bar>of_int (n + k) :: rat\<bar> + spec_magnitude cache xs \<le> 9007199254740992"
    using Cons.prems(2) tri unfolding mag by linarith
  then have "\<bar>of_int (n + k) :: rat\<bar> \<le> 9007199254740992"
    using nn by linarith
  then have r2: "representable (of_int n + line_amount cache x)"
    unfolding sum by (rule representable_of_int)
  have "exact_run cache xs (of_int (n + k))"
    using Cons.IH [of "n + k"] Cons.prems(1) bound by simp
  with r1 r2 show ?case
    by (simp add: sum)
qed

text \<open>
  Whole quantities and amounts within \<open>2^53\<close>: no product, partial sum or total is rounded.
\<close>

lemma whole_cart_no_rounding:
  assumes "\<forall>l \<in> set ls. matches_master cache l \<and> whole_quantity l"
    and "spec_magnitude cache ls + 3000 \<le> 9007199254740992"
  shows "no_rounding cache ls"
proof -
  have nn: "0 \<le> spec_magnitude cache ls"
    by (rule spec_magnitude_nonneg)
  have "exact_run cache ls (of_int 0)"
    using assms nn by (intro exact_run_whole) auto
  then have run: "exact_run cache ls 0"
    by simp
  from spec_subtotal_whole [OF assms(1)] obtain k where k: "spec_subtotal cache ls = of_int k"
    by auto
  have total: "spec_total cache ls = of_int (k + (if 30000 \<le> k then 0 else 3000))"
    by (simp add: spec_total_def spec_shipping_def k)
  have "\<bar>spec_total cache ls\<bar>
          \<le> \<bar>spec_subtotal cache ls\<bar> + \<bar>spec_shipping (spec_subtotal cache ls)\<bar>"
    unfolding spec_total_def by (rule abs_triangle_ineq)
  moreover have "\<bar>spec_shipping (spec_subtotal cache ls)\<bar> \<le> 3000"
    by (simp add: spec_shipping_def)
  ultimately have "\<bar>spec_total cache ls\<bar> \<le> \<bar>spec_subtotal cache ls\<bar> + 3000"
    by linarith
  also have "\<dots> \<le> spec_magnitude cache ls + 3000"
    using spec_subtotal_bound [of cache ls] by simp
  finally have "\<bar>spec_total cache ls\<bar> \<le> 9007199254740992"
    using assms(2) by simp
  then have "representable (spec_total cache ls)"
    unfolding total by (rule representable_of_int)
  with run show ?thesis
    by (simp add: no_rounding_def)
qed


section \<open>Acceptance of matching carts\<close>

text \<open>
  C1, as stated, fails: the validator compares the claimed total with a sum computed in
  binary64. One line for the book 4 (master price 21900) with the quantity 1000000000000001
  matches the master data; its amount is 21900000000000021900, which is no double, and the
  product is rounded to 21900000000000020480. The validator accepts that claimed total,
  which is not the sum of master price times quantity plus the shipping fee.
\<close>

theorem rounded_total_accepted:
  "sample_cache 0 = None
   \<and> matches_master sample_cache (line 4 1000000000000001 21900)
   \<and> spec_total sample_cache [line 4 1000000000000001 21900] = 21900000000000021900
   \<and> validatePaymentAmount sample_cache (Some [line 4 1000000000000001 21900])
         (JNum 21900000000000020480)
       = Inr \<lparr>valid = True, error = None, calculatedTotal = Some (Fin 21900000000000020480)\<rparr>
   \<and> JNum 21900000000000020480 \<noteq> JNum 21900000000000021900"
  by (simp add: spec_total_def spec_subtotal_def spec_shipping_def validatePaymentAmount_def
        line_def shippingFee_def round64_def binary_exponent_def pow2_def round_half_even_def
        compute_bitlen Let_def)

text \<open>
  C1, amended. Let the cache hold no book under the id 0 (the ids of \<open>books\<close> come from a
  sequence that starts at 1). For every non-empty list of lines whose \<open>bookId\<close> is found in the
  cache, whose client price is the master price and whose quantity is greater than 0, and for
  which no product, no partial sum and not the total is rounded by the binary64 arithmetic
  (as is the case when the quantities are whole numbers and the amounts stay within
  \<open>2^53\<close>, lemma \<open>whole_cart_no_rounding\<close>), \<open>validatePaymentAmount\<close> returns a result, and that
  result is valid if and only if the claimed total is the sum of master price times quantity
  plus the shipping fee (0 from a subtotal of 30000 on, 3000 below); a valid result carries
  that total as \<open>calculatedTotal\<close>.
\<close>

theorem validatePaymentAmount_accepts_iff:
  assumes "cache 0 = None" and "ls \<noteq> []" and "\<forall>l \<in> set ls. matches_master cache l"
    and "no_rounding cache ls"
  shows "\<exists>r. validatePaymentAmount cache (Some ls) claimedTotal = Inr r
           \<and> (valid r \<longleftrightarrow> claimedTotal = JNum (spec_total cache ls))
           \<and> (valid r \<longrightarrow> calculatedTotal r = Some (Fin (spec_total cache ls)))"
  using validate_matching [OF assms, of claimedTotal] by simp

theorem validatePaymentAmount_accepts_iff_witness:
  "sample_cache 0 = None
   \<and> matches_master sample_cache (line 3 2 8100)
   \<and> matches_master sample_cache (line 4 1 21900)
   \<and> no_rounding sample_cache [line 3 2 8100, line 4 1 21900]
   \<and> spec_total sample_cache [line 3 2 8100, line 4 1 21900] = 38100
   \<and> (\<exists>r. validatePaymentAmount sample_cache (Some [line 3 2 8100, line 4 1 21900]) (JNum 38100)
              = Inr r
          \<and> valid r \<and> calculatedTotal r = Some (Fin 38100))"
proof -
  have total: "spec_total sample_cache [line 3 2 8100, line 4 1 21900] = 38100"
    by (simp add: spec_total_def spec_subtotal_def spec_shipping_def)
  have exact: "no_rounding sample_cache [line 3 2 8100, line 4 1 21900]"
    by (simp add: no_rounding_def representable_def total)
  have hyps: "sample_cache 0 = None" "[line 3 2 8100, line 4 1 21900] \<noteq> []"
    "\<forall>l \<in> set [line 3 2 8100, line 4 1 21900]. matches_master sample_cache l"
    by simp_all
  show ?thesis
    using validatePaymentAmount_accepts_iff [OF hyps exact, of "JNum 38100"] total exact by auto
qed

text \<open>
  C4, as stated, fails: the fee follows the subtotal as accumulated in binary64. The three
  lines below match the master data and their amounts add up to exactly 30000; the validator
  accumulates a subtotal just below 30000, adds the fee of 3000, and rejects the claimed
  total 30000 with the calculated total 33000.
\<close>

theorem exact_subtotal_30000_rejected:
  "sample_cache 0 = None
   \<and> matches_master sample_cache (line 1 (2128277270545 / 4398046511104) 45000)
   \<and> matches_master sample_cache (line 3 (70494091009 / 2199023255552) 8100)
   \<and> matches_master sample_cache (line 4 (399850615117 / 1099511627776) 21900)
   \<and> spec_subtotal sample_cache
         [line 1 (2128277270545 / 4398046511104) 45000,
          line 3 (70494091009 / 2199023255552) 8100,
          line 4 (399850615117 / 1099511627776) 21900] = 30000
   \<and> validatePaymentAmount sample_cache
         (Some [line 1 (2128277270545 / 4398046511104) 45000,
                line 3 (70494091009 / 2199023255552) 8100,
                line 4 (399850615117 / 1099511627776) 21900])
         (JNum 30000)
       = Inr \<lparr>valid = False, error = Some (TotalMismatch (Fin 33000) (JNum 30000)),
               calculatedTotal = Some (Fin 33000)\<rparr>"
  by (simp add: spec_subtotal_def validatePaymentAmount_def
        line_def shippingFee_def round64_def binary_exponent_def pow2_def round_half_even_def
        compute_bitlen Let_def)

text \<open>
  C4, amended. Let the cache hold no id 0 and let the lines, at least one, match the master
  data. Then the loop ends with a subtotal \<open>s\<close>, accumulated in binary64, and the validator
  returns a result: when \<open>s >= 30000\<close> the fee is 0, the calculated total is \<open>s + 0\<close> and the
  result is valid exactly for that claimed total; otherwise the fee is 3000, the calculated
  total is \<open>s + 3000\<close> and the result is valid exactly for that claimed total. In particular,
  when \<open>s\<close> is exactly 30000 the claimed total 30000 is accepted; and \<open>s\<close> is exactly 30000
  whenever no product or partial sum is rounded and the amounts add up to 30000.
\<close>

theorem shippingFee_boundary:
  assumes "cache 0 = None" and "ls \<noteq> []" and "\<forall>l \<in> set ls. matches_master cache l"
  shows "\<exists>s r. for_items cache ls (Fin 0) = Subtotal s
           \<and> validatePaymentAmount cache (Some ls) claimedTotal = Inr r
           \<and> (num_ge s (Fin 30000)
                \<longrightarrow> calculatedTotal r = Some (num_add s (Fin 0))
                    \<and> (valid r \<longleftrightarrow> strict_eq (num_add s (Fin 0)) claimedTotal))
           \<and> (\<not> num_ge s (Fin 30000)
                \<longrightarrow> calculatedTotal r = Some (num_add s (Fin 3000))
                    \<and> (valid r \<longleftrightarrow> strict_eq (num_add s (Fin 3000)) claimedTotal))
           \<and> (s = Fin 30000
                \<longrightarrow> validatePaymentAmount cache (Some ls) (JNum 30000)
                      = Inr \<lparr>valid = True, error = None, calculatedTotal = Some (Fin 30000)\<rparr>)
           \<and> (exact_run cache ls 0 \<and> spec_subtotal cache ls = 30000 \<longrightarrow> s = Fin 30000)"
proof -
  from for_items_matching [OF assms(1,3), of "Fin 0"] obtain s
    where s: "for_items cache ls (Fin 0) = Subtotal s"
    by auto
  note v = validate_of_subtotal [OF assms(2) s]
  let ?r = "if strict_eq (num_add s (shippingFee s)) claimedTotal
            then \<lparr>valid = True, error = None,
                   calculatedTotal = Some (num_add s (shippingFee s))\<rparr>
            else \<lparr>valid = False,
                   error = Some (TotalMismatch (num_add s (shippingFee s)) claimedTotal),
                   calculatedTotal = Some (num_add s (shippingFee s))\<rparr>"
  have r: "validatePaymentAmount cache (Some ls) claimedTotal = Inr ?r"
    by (rule v)
  have hi: "num_ge s (Fin 30000) \<longrightarrow> calculatedTotal ?r = Some (num_add s (Fin 0))
              \<and> (valid ?r \<longleftrightarrow> strict_eq (num_add s (Fin 0)) claimedTotal)"
    by (simp add: shippingFee_def)
  have lo: "\<not> num_ge s (Fin 30000) \<longrightarrow> calculatedTotal ?r = Some (num_add s (Fin 3000))
              \<and> (valid ?r \<longleftrightarrow> strict_eq (num_add s (Fin 3000)) claimedTotal)"
    by (simp add: shippingFee_def)
  have at: "s = Fin 30000
              \<longrightarrow> validatePaymentAmount cache (Some ls) (JNum 30000)
                    = Inr \<lparr>valid = True, error = None, calculatedTotal = Some (Fin 30000)\<rparr>"
    by (simp add: validate_of_subtotal [OF assms(2) s] shippingFee_def)
  have ex: "exact_run cache ls 0 \<and> spec_subtotal cache ls = 30000 \<longrightarrow> s = Fin 30000"
    using for_items_exact [OF assms(1,3), of 0] s by auto
  from s r hi lo at ex show ?thesis
    by blast
qed

theorem shippingFee_boundary_witness:
  "sample_cache 0 = None
   \<and> matches_master sample_cache (line 3 1 8100)
   \<and> matches_master sample_cache (line 4 1 21900)
   \<and> for_items sample_cache [line 3 1 8100, line 4 1 21900] (Fin 0) = Subtotal (Fin 30000)
   \<and> num_ge (Fin 30000) (Fin 30000)
   \<and> validatePaymentAmount sample_cache (Some [line 3 1 8100, line 4 1 21900]) (JNum 30000)
        = Inr \<lparr>valid = True, error = None, calculatedTotal = Some (Fin 30000)\<rparr>
   \<and> for_items sample_cache [line 3 1 8100] (Fin 0) = Subtotal (Fin 8100)
   \<and> \<not> num_ge (Fin 8100) (Fin 30000)
   \<and> validatePaymentAmount sample_cache (Some [line 3 1 8100]) (JNum 11100)
        = Inr \<lparr>valid = True, error = None, calculatedTotal = Some (Fin 11100)\<rparr>"
proof -
  have hyps: "sample_cache 0 = None" "[line 3 1 8100, line 4 1 21900] \<noteq> []"
    "\<forall>l \<in> set [line 3 1 8100, line 4 1 21900]. matches_master sample_cache l"
    by simp_all
  have loop: "for_items sample_cache [line 3 1 8100, line 4 1 21900] (Fin 0)
                = Subtotal (Fin 30000)"
    "for_items sample_cache [line 3 1 8100] (Fin 0) = Subtotal (Fin 8100)"
    by (simp_all add: line_def)
  have below: "validatePaymentAmount sample_cache (Some [line 3 1 8100]) (JNum 11100)
        = Inr \<lparr>valid = True, error = None, calculatedTotal = Some (Fin 11100)\<rparr>"
    by (simp add: validatePaymentAmount_def line_def shippingFee_def)
  from shippingFee_boundary [OF hyps, of "JNum 30000"] loop below show ?thesis
    by auto
qed

lemma floor_three_halves: "\<lfloor>3 / 2 :: rat\<rfloor> = 1"
  by (rule floor_unique) simp_all

text \<open>
  C9. Quantities need not be integers. With the book 1 (master price 45000) and the book 3
  (master price 8100) in the cache, a line with the quantity 1.5 passes the quantity check,
  and the validator accepts the claimed totals 45000 x 1.5 + 0 = 67500 and
  8100 x 1.5 + 3000 = 15150.
\<close>

theorem fractional_quantity_accepted:
  "of_int \<lfloor>3 / 2 :: rat\<rfloor> \<noteq> (3 / 2 :: rat)
   \<and> \<not> (falsy (JNum (3 / 2)) \<or> num_le (to_number (JNum (3 / 2))) (Fin 0))
   \<and> validatePaymentAmount sample_cache (Some [line 1 (3 / 2) 45000]) (JNum 67500)
        = Inr \<lparr>valid = True, error = None, calculatedTotal = Some (Fin 67500)\<rparr>
   \<and> validatePaymentAmount sample_cache (Some [line 3 (3 / 2) 8100]) (JNum 15150)
        = Inr \<lparr>valid = True, error = None, calculatedTotal = Some (Fin 15150)\<rparr>"
  by (simp add: validatePaymentAmount_def line_def shippingFee_def floor_three_halves)


section \<open>Rejections\<close>

text \<open>What the loop does at a line that follows matching lines.\<close>

lemma validate_at_line:
  assumes "cache 0 = None" and "\<forall>x \<in> set pre. matches_master cache x"
    and "\<And>acc. for_items cache (JsObj l # post) acc = Return r"
  shows "validatePaymentAmount cache (Some (pre @ JsObj l # post)) claimedTotal = Inr r"
proof -
  from for_items_prefix [OF assms(1,2), of "JsObj l # post" "Fin 0"] obtain acc'
    where "for_items cache (pre @ JsObj l # post) (Fin 0)
             = for_items cache (JsObj l # post) acc'"
    by auto
  then have loop: "for_items cache (pre @ JsObj l # post) (Fin 0) = Return r"
    using assms(3) by simp
  obtain y ys where ys: "pre @ JsObj l # post = y # ys"
    by (cases pre) auto
  show ?thesis
    unfolding validatePaymentAmount_def ys option.case list.case
    unfolding ys [symmetric] loop
    by simp
qed

lemma found_book_truthy:
  assumes "cache 0 = None" and "map_get cache v = Some b"
  shows "\<not> falsy v"
  using assms by (cases v) (auto split: if_splits)

text \<open>A line that passes the required-field check and the lookup, with another price.\<close>

lemma price_check_at_line:
  assumes "cache 0 = None" and "\<forall>x \<in> set pre. matches_master cache x"
    and "\<not> (falsy (bookId l) \<or> falsy (quantity l) \<or> num_le (to_number (quantity l)) (Fin 0))"
    and "map_get cache (bookId l) = Some b"
    and "price l \<noteq> JNum (of_int (book_price b))"
  shows "validatePaymentAmount cache (Some (pre @ JsObj l # post)) claimedTotal
           = Inr \<lparr>valid = False,
                   error = Some (PriceMismatch (title b) (book_price b) (price l)),
                   calculatedTotal = None\<rparr>"
proof (rule validate_at_line [OF assms(1,2)])
  fix acc
  show "for_items cache (JsObj l # post) acc
          = Return \<lparr>valid = False,
                     error = Some (PriceMismatch (title b) (book_price b) (price l)),
                     calculatedTotal = None\<rparr>"
    using assms(3-5) by simp
qed

text \<open>A result returned from inside the loop is never valid.\<close>

lemma for_items_Return_invalid:
  "for_items cache ls acc = Return r \<Longrightarrow> \<not> valid r"
  by (induction cache ls acc rule: for_items.induct)
     (auto simp: Let_def split: if_splits option.splits)

text \<open>A loop that runs to its end has seen a number as the price of every line.\<close>

lemma for_items_Subtotal_price:
  "for_items cache ls acc = Subtotal s \<Longrightarrow> JsObj l \<in> set ls \<Longrightarrow> price l \<noteq> JUndefined"
  by (induction cache ls acc rule: for_items.induct)
     (auto simp: Let_def split: if_splits option.splits)

text \<open>The shape of a valid result.\<close>

lemma valid_result:
  assumes "validatePaymentAmount cache its expectedTotal = Inr r" and "valid r"
  shows "\<exists>ls s t. its = Some ls \<and> ls \<noteq> [] \<and> for_items cache ls (Fin 0) = Subtotal s
           \<and> expectedTotal = JNum t
           \<and> r = \<lparr>valid = True, error = None, calculatedTotal = Some (Fin t)\<rparr>"
proof (cases its)
  case None
  with assms show ?thesis
    by (auto simp: validatePaymentAmount_def)
next
  case (Some ls)
  show ?thesis
  proof (cases ls)
    case Nil
    with Some assms show ?thesis
      by (auto simp: validatePaymentAmount_def)
  next
    case (Cons x xs)
    show ?thesis
    proof (cases "for_items cache (x # xs) (Fin 0)")
      case (Subtotal s)
      obtain total where total: "num_add s (shippingFee s) = total"
        by simp
      from assms Some Cons Subtotal total have eq: "strict_eq total expectedTotal"
        and r: "r = \<lparr>valid = True, error = None, calculatedTotal = Some total\<rparr>"
        by (auto simp: validatePaymentAmount_def Let_def split: if_splits)
      from eq obtain t where "total = Fin t" "expectedTotal = JNum t"
        by (cases total; cases expectedTotal) auto
      with Some Cons Subtotal r show ?thesis
        by simp
    next
      case (Return r')
      with assms Some Cons for_items_Return_invalid [OF Return] show ?thesis
        by (auto simp: validatePaymentAmount_def)
    next
      case (Throw e)
      with assms Some Cons show ?thesis
        by (auto simp: validatePaymentAmount_def)
    qed
  qed
qed

text \<open>
  C5, as stated, fails: the required-field check comes before the price check. With the book 1
  at 45000 in the cache, the single line with the client price 100 and the quantity -1 has a
  price that differs from the master price and no line before it, and it is rejected as a
  malformed line item, not for its price.
\<close>

theorem price_mismatch_behind_field_check:
  "map_get sample_cache (JNum 1)
     = Some \<lparr>book_id = 1, title = ''Modern JavaScript Deep Dive'', book_price = 45000,
              is_active = True\<rparr>
   \<and> JNum 100 \<noteq> JNum (of_int 45000)
   \<and> validatePaymentAmount sample_cache (Some [line 1 (- 1) 100]) (JNum 3100)
        = Inr \<lparr>valid = False, error = Some InvalidLineItem, calculatedTotal = None\<rparr>"
  by (simp add: validatePaymentAmount_def line_def)

text \<open>
  C5, amended. Let the cache hold no id 0. If all lines before a line match the master data,
  and that line has a \<open>bookId\<close> found in the cache, a quantity greater than 0 and a client
  price that differs from the master price, then \<open>validatePaymentAmount\<close> returns invalid with
  the price-mismatch reason (title, server price, client price) and no \<open>calculatedTotal\<close>, for
  every claimed total and whatever lines follow.
\<close>

theorem price_mismatch_rejected:
  assumes "cache 0 = None" and "\<forall>x \<in> set pre. matches_master cache x"
    and "map_get cache (bookId l) = Some b"
    and "quantity l = JNum q" and "0 < q"
    and "price l \<noteq> JNum (of_int (book_price b))"
  shows "validatePaymentAmount cache (Some (pre @ JsObj l # post)) claimedTotal
           = Inr \<lparr>valid = False,
                   error = Some (PriceMismatch (title b) (book_price b) (price l)),
                   calculatedTotal = None\<rparr>"
proof -
  have "\<not> falsy (bookId l)"
    using found_book_truthy [OF assms(1,3)] .
  with assms(4,5)
  have "\<not> (falsy (bookId l) \<or> falsy (quantity l) \<or> num_le (to_number (quantity l)) (Fin 0))"
    by simp
  from price_check_at_line [OF assms(1,2) this assms(3,6)] show ?thesis .
qed

theorem price_mismatch_rejected_witness:
  "sample_cache 0 = None
   \<and> matches_master sample_cache (line 3 1 8100)
   \<and> map_get sample_cache (JNum 1)
       = Some \<lparr>book_id = 1, title = ''Modern JavaScript Deep Dive'', book_price = 45000,
                is_active = True\<rparr>
   \<and> (0 :: rat) < 1
   \<and> JNum 100 \<noteq> JNum (of_int 45000)
   \<and> validatePaymentAmount sample_cache
         (Some ([line 3 1 8100] @ JsObj \<lparr>bookId = JNum 1, quantity = JNum 1, price = JNum 100\<rparr> # []))
         (JNum 56100)
       = Inr \<lparr>valid = False,
               error = Some (PriceMismatch ''Modern JavaScript Deep Dive'' 45000 (JNum 100)),
               calculatedTotal = None\<rparr>"
  using price_mismatch_rejected [of sample_cache "[line 3 1 8100]"
      "\<lparr>bookId = JNum 1, quantity = JNum 1, price = JNum 100\<rparr>"
      "\<lparr>book_id = 1, title = ''Modern JavaScript Deep Dive'', book_price = 45000,
        is_active = True\<rparr>" 1 "[]" "JNum 56100"]
  by simp

text \<open>
  C6, as stated, fails for the same reason: the \<open>bookId\<close> 999 is not in the cache, no line
  precedes, and the line with the quantity -1 is rejected as a malformed line item, not as a
  product that does not exist.
\<close>

theorem unknown_book_behind_field_check:
  "map_get sample_cache (JNum 999) = None
   \<and> validatePaymentAmount sample_cache (Some [line 999 (- 1) 99999]) (JNum 99999)
        = Inr \<lparr>valid = False, error = Some InvalidLineItem, calculatedTotal = None\<rparr>"
  by (simp add: validatePaymentAmount_def line_def)

text \<open>
  C6, amended. Let the cache hold no id 0. If all lines before a line match the master data,
  and that line has a \<open>bookId\<close> that is not falsy and not found in the cache and a quantity
  greater than 0, then \<open>validatePaymentAmount\<close> returns invalid with the does-not-exist reason
  (carrying the \<open>bookId\<close>) and no \<open>calculatedTotal\<close>, for every claimed total.
\<close>

theorem unknown_book_rejected:
  assumes "cache 0 = None" and "\<forall>x \<in> set pre. matches_master cache x"
    and "\<not> falsy (bookId l)" and "map_get cache (bookId l) = None"
    and "quantity l = JNum q" and "0 < q"
  shows "validatePaymentAmount cache (Some (pre @ JsObj l # post)) claimedTotal
           = Inr \<lparr>valid = False, error = Some (ProductNotFound (bookId l)),
                   calculatedTotal = None\<rparr>"
proof (rule validate_at_line [OF assms(1,2)])
  fix acc
  show "for_items cache (JsObj l # post) acc
          = Return \<lparr>valid = False, error = Some (ProductNotFound (bookId l)),
                     calculatedTotal = None\<rparr>"
    using assms(3-6) by simp
qed

theorem unknown_book_rejected_witness:
  "sample_cache 0 = None
   \<and> matches_master sample_cache (line 3 1 8100)
   \<and> \<not> falsy (JNum 999)
   \<and> map_get sample_cache (JNum 999) = None
   \<and> (0 :: rat) < 1
   \<and> validatePaymentAmount sample_cache
         (Some ([line 3 1 8100] @ JsObj \<lparr>bookId = JNum 999, quantity = JNum 1, price = JNum 99999\<rparr> # []))
         (JNum 99999)
       = Inr \<lparr>valid = False, error = Some (ProductNotFound (JNum 999)),
               calculatedTotal = None\<rparr>"
  using unknown_book_rejected [of sample_cache "[line 3 1 8100]"
      "\<lparr>bookId = JNum 999, quantity = JNum 1, price = JNum 99999\<rparr>" 1 "[]" "JNum 99999"]
  by simp

text \<open>
  C7. The rejections that return from inside the loop, and the rejection of an empty list,
  carry a reason and no \<open>calculatedTotal\<close>; only the final total mismatch carries one. The
  inputs are those of the repository's functional tests: an unknown book, a tampered price and
  a negative quantity, followed by an empty list and by a wrong total.
\<close>

theorem rejections_without_calculatedTotal:
  "validatePaymentAmount sample_cache (Some [line 999 1 99999]) (JNum 99999)
     = Inr \<lparr>valid = False, error = Some (ProductNotFound (JNum 999)), calculatedTotal = None\<rparr>
   \<and> validatePaymentAmount sample_cache (Some [line 1 1 100]) (JNum 103)
     = Inr \<lparr>valid = False,
             error = Some (PriceMismatch ''Modern JavaScript Deep Dive'' 45000 (JNum 100)),
             calculatedTotal = None\<rparr>
   \<and> validatePaymentAmount sample_cache (Some [line 1 (- 1) 45000]) (JNum (- 45000))
     = Inr \<lparr>valid = False, error = Some InvalidLineItem, calculatedTotal = None\<rparr>
   \<and> validatePaymentAmount sample_cache (Some []) (JNum 3000)
     = Inr \<lparr>valid = False, error = Some NoItems, calculatedTotal = None\<rparr>
   \<and> validatePaymentAmount sample_cache (Some [line 1 1 45000]) (JNum 1000)
     = Inr \<lparr>valid = False, error = Some (TotalMismatch (Fin 45000) (JNum 1000)),
             calculatedTotal = Some (Fin 45000)\<rparr>"
  by (simp add: validatePaymentAmount_def line_def shippingFee_def Let_def)


text \<open>
  C10, as stated, fails: the absence of \<open>price\<close> is met only by a line that reaches the price
  check. With the book 1 in the cache and no book 999, a line without \<open>price\<close> and with the
  quantity -1 is rejected as a malformed line item, and a line without \<open>price\<close> for the book
  999 is rejected as a product that does not exist; neither gets the price-mismatch reason.
\<close>

theorem absent_price_behind_other_checks:
  "validatePaymentAmount sample_cache
      (Some [JsObj \<lparr>bookId = JNum 1, quantity = JNum (- 1), price = JUndefined\<rparr>]) (JNum 45000)
     = Inr \<lparr>valid = False, error = Some InvalidLineItem, calculatedTotal = None\<rparr>
   \<and> validatePaymentAmount sample_cache
        (Some [JsObj \<lparr>bookId = JNum 999, quantity = JNum 1, price = JUndefined\<rparr>]) (JNum 45000)
     = Inr \<lparr>valid = False, error = Some (ProductNotFound (JNum 999)), calculatedTotal = None\<rparr>"
  by (simp add: validatePaymentAmount_def)

text \<open>
  C10, amended. The required-field check reads \<open>bookId\<close> and \<open>quantity\<close> only, so the absence of
  \<open>price\<close> is not a malformed line item: a line without \<open>price\<close> that passes this check and
  whose \<open>bookId\<close> is found in the cache (after matching lines, the cache holding no id 0) is
  compared with the master price and rejected with the price-mismatch reason, the client
  price being \<open>undefined\<close>. And whatever else a list holds, a list with a line that omits its
  price is never accepted.
\<close>

theorem absent_price_rejected:
  "(cache 0 = None \<and> (\<forall>x \<in> set pre. matches_master cache x)
      \<and> \<not> falsy (bookId l) \<and> \<not> falsy (quantity l)
      \<and> \<not> num_le (to_number (quantity l)) (Fin 0)
      \<and> map_get cache (bookId l) = Some b
      \<and> price l = JUndefined
    \<longrightarrow> validatePaymentAmount cache (Some (pre @ JsObj l # post)) claimedTotal
          = Inr \<lparr>valid = False,
                  error = Some (PriceMismatch (title b) (book_price b) JUndefined),
                  calculatedTotal = None\<rparr>)
   \<and> ((\<exists>l'. JsObj l' \<in> set ls \<and> price l' = JUndefined)
        \<longrightarrow> (\<forall>r. validatePaymentAmount cache (Some ls) claimedTotal = Inr r \<longrightarrow> \<not> valid r))"
proof (intro conjI impI allI)
  assume h: "cache 0 = None \<and> (\<forall>x \<in> set pre. matches_master cache x)
      \<and> \<not> falsy (bookId l) \<and> \<not> falsy (quantity l)
      \<and> \<not> num_le (to_number (quantity l)) (Fin 0)
      \<and> map_get cache (bookId l) = Some b
      \<and> price l = JUndefined"
  then have "price l \<noteq> JNum (of_int (book_price b))"
    by simp
  with h price_check_at_line [of cache pre l b post claimedTotal]
  show "validatePaymentAmount cache (Some (pre @ JsObj l # post)) claimedTotal
          = Inr \<lparr>valid = False,
                  error = Some (PriceMismatch (title b) (book_price b) JUndefined),
                  calculatedTotal = None\<rparr>"
    by simp
next
  fix r
  assume ex: "\<exists>l'. JsObj l' \<in> set ls \<and> price l' = JUndefined"
    and res: "validatePaymentAmount cache (Some ls) claimedTotal = Inr r"
  show "\<not> valid r"
  proof
    assume "valid r"
    from valid_result [OF res this] obtain s where "for_items cache ls (Fin 0) = Subtotal s"
      by auto
    with ex for_items_Subtotal_price show False
      by blast
  qed
qed

theorem absent_price_rejected_witness:
  "sample_cache 0 = None
   \<and> matches_master sample_cache (line 3 1 8100)
   \<and> \<not> falsy (JNum 1) \<and> \<not> falsy (JNum 2) \<and> \<not> num_le (to_number (JNum 2)) (Fin 0)
   \<and> map_get sample_cache (JNum 1)
       = Some \<lparr>book_id = 1, title = ''Modern JavaScript Deep Dive'', book_price = 45000,
                is_active = True\<rparr>
   \<and> validatePaymentAmount sample_cache
         (Some ([line 3 1 8100]
                @ JsObj \<lparr>bookId = JNum 1, quantity = JNum 2, price = JUndefined\<rparr> # []))
         (JNum 98100)
       = Inr \<lparr>valid = False,
               error = Some (PriceMismatch ''Modern JavaScript Deep Dive'' 45000 JUndefined),
               calculatedTotal = None\<rparr>"
  using absent_price_rejected [of sample_cache "[line 3 1 8100]"
      "\<lparr>bookId = JNum 1, quantity = JNum 2, price = JUndefined\<rparr>"
      "\<lparr>book_id = 1, title = ''Modern JavaScript Deep Dive'', book_price = 45000,
        is_active = True\<rparr>" "[]" "JNum 98100"
      "[line 3 1 8100, JsObj \<lparr>bookId = JNum 1, quantity = JNum 2, price = JUndefined\<rparr>]"]
  by simp

section \<open>Payment confirmation\<close>

text \<open>
  C3. When the request has its required fields, the validator accepts it, and the provider
  answers with an error reply (\<open>ok\<close> false, a status and a JSON object), the handler answers
  with the provider's status, \<open>code\<close> and \<open>message\<close>, which is not the validator's reply, and the
  database is left as it was: no order is inserted.
\<close>

theorem provider_failure_no_order:
  assumes "\<not> falsy_text (paymentKey body)" and "\<not> falsy_text (orderId body)"
    and "\<not> falsy (amount body)"
    and "validatePaymentAmount cache (items body) (amount body) = Inr v" and "valid v"
    and "toss \<lparr>req_paymentKey = paymentKey body, req_orderId = orderId body,
                 req_amount = amount body\<rparr> = Responded False http_status (JsObj tossResult)"
  shows "post_payments_confirm cache toss pg_accepts now uid body db
           = (ProviderFailed http_status (toss_code tossResult) (toss_message tossResult), db)
         \<and> (\<forall>e. fst (post_payments_confirm cache toss pg_accepts now uid body db)
                  \<noteq> AmountRejected e)"
proof -
  from valid_result [OF assms(4,5)] obtain ls where "items body = Some ls" "ls \<noteq> []"
    by auto
  with assms have "post_payments_confirm cache toss pg_accepts now uid body db
           = (ProviderFailed http_status (toss_code tossResult) (toss_message tossResult), db)"
    by (simp add: post_payments_confirm_def)
  then show ?thesis
    by simp
qed

theorem provider_failure_no_order_witness:
  "\<not> falsy_text (paymentKey sample_body) \<and> \<not> falsy_text (orderId sample_body)
   \<and> \<not> falsy (amount sample_body)
   \<and> validatePaymentAmount sample_cache (items sample_body) (amount sample_body)
       = Inr \<lparr>valid = True, error = None, calculatedTotal = Some (Fin 45000)\<rparr>
   \<and> post_payments_confirm sample_cache toss_refuses pg_accepts_all 1000 7 sample_body sample_db
       = (ProviderFailed 400 (Some ''REJECT_CARD_PAYMENT'') (Some ''card refused''), sample_db)"
proof -
  have v: "validatePaymentAmount sample_cache (items sample_body) (amount sample_body)
             = Inr \<lparr>valid = True, error = None, calculatedTotal = Some (Fin 45000)\<rparr>"
    by (simp add: sample_body_def validatePaymentAmount_def line_def shippingFee_def)
  have f: "\<not> falsy_text (paymentKey sample_body)" "\<not> falsy_text (orderId sample_body)"
    "\<not> falsy (amount sample_body)"
    by (simp_all add: sample_body_def)
  show ?thesis
    using provider_failure_no_order [OF f v, of toss_refuses 400 _ pg_accepts_all 1000 7 sample_db]
      v f
    by (simp add: toss_refuses_def)
qed

text \<open>
  C2, as stated, fails: the row takes its \<open>total_amount\<close> from the provider's reply. Here the
  validator computes 45000 and accepts, the provider confirms and reports the total 1000, and
  the order is stored with 1000.
\<close>

theorem stored_total_is_the_providers:
  "validatePaymentAmount sample_cache (items sample_body) (amount sample_body)
     = Inr \<lparr>valid = True, error = None, calculatedTotal = Some (Fin 45000)\<rparr>
   \<and> map total_amount
         (orders (snd (post_payments_confirm sample_cache toss_other_total pg_accepts_all 1000 7
                         sample_body empty_db)))
       = [JNum 1000]
   \<and> JNum 1000 \<noteq> JNum 45000"
  by (simp add: post_payments_confirm_def sample_body_def validatePaymentAmount_def line_def
        shippingFee_def toss_other_total_def pg_accepts_all_def empty_db_def Let_def)

text \<open>
  C2, amended. Whenever the confirmation handler changes the \<open>orders\<close> table, it has appended
  exactly one row; the validator accepted the request, so the client's amount is a number
  equal to the server-computed total; the provider was asked to confirm that amount and
  answered with success; and the stored \<open>total_amount\<close> is the \<open>totalAmount\<close> of the provider's
  reply. It equals the server-computed total whenever the provider reports the amount it was
  asked to confirm.
\<close>

theorem persisted_total_amount:
  assumes "post_payments_confirm cache toss pg_accepts now uid body db = (resp, db')"
    and "orders db' \<noteq> orders db"
  shows "\<exists>t http_status tossResult row.
           validatePaymentAmount cache (items body) (amount body)
             = Inr \<lparr>valid = True, error = None, calculatedTotal = Some (Fin t)\<rparr>
         \<and> amount body = JNum t
         \<and> toss \<lparr>req_paymentKey = paymentKey body, req_orderId = orderId body,
                   req_amount = JNum t\<rparr> = Responded True http_status (JsObj tossResult)
         \<and> orders db' = orders db @ [row]
         \<and> total_amount row = toss_totalAmount tossResult
         \<and> (toss_totalAmount tossResult = JNum t \<longrightarrow> total_amount row = JNum t)"
proof (cases "validatePaymentAmount cache (items body) (amount body)")
  case (Inl e)
  with assms show ?thesis
    by (auto simp: post_payments_confirm_def split: if_splits)
next
  case (Inr v)
  show ?thesis
  proof (cases "valid v")
    case False
    with Inr assms show ?thesis
      by (auto simp: post_payments_confirm_def split: if_splits)
  next
    case True
    from valid_result [OF Inr True] obtain t
      where t: "amount body = JNum t"
        and v: "v = \<lparr>valid = True, error = None, calculatedTotal = Some (Fin t)\<rparr>"
      by auto
    let ?req = "\<lparr>req_paymentKey = paymentKey body, req_orderId = orderId body,
                  req_amount = JNum t\<rparr>"
    show ?thesis
    proof (cases "toss ?req")
      case Rejected
      with Inr True t assms show ?thesis
        by (auto simp: post_payments_confirm_def split: if_splits)
    next
      case (Responded ok http_status reply)
      show ?thesis
      proof (cases reply)
        case JsNull
        with Responded Inr True t assms show ?thesis
          by (auto simp: post_payments_confirm_def split: if_splits)
      next
        case (JsObj tossResult)
        with Responded Inr True t assms have ok
          by (auto simp: post_payments_confirm_def split: if_splits)
        with JsObj Responded Inr True t assms
        have "\<exists>row. orders db' = orders db @ [row]
                \<and> total_amount row = toss_totalAmount tossResult"
          by (auto simp: post_payments_confirm_def Let_def split: if_splits)
        with \<open>ok\<close> JsObj Responded Inr v t show ?thesis
          by auto
      qed
    qed
  qed
qed

theorem persisted_total_amount_witness:
  "orders (snd (post_payments_confirm sample_cache toss_confirms pg_accepts_all 1000 7
                  sample_body empty_db)) \<noteq> orders empty_db
   \<and> validatePaymentAmount sample_cache (items sample_body) (amount sample_body)
       = Inr \<lparr>valid = True, error = None, calculatedTotal = Some (Fin 45000)\<rparr>
   \<and> map total_amount
         (orders (snd (post_payments_confirm sample_cache toss_confirms pg_accepts_all 1000 7
                         sample_body empty_db)))
       = [JNum 45000]"
proof -
  have stored: "map total_amount
         (orders (snd (post_payments_confirm sample_cache toss_confirms pg_accepts_all 1000 7
                         sample_body empty_db)))
       = [JNum 45000]"
    by (simp add: post_payments_confirm_def sample_body_def validatePaymentAmount_def line_def
          shippingFee_def toss_confirms_def pg_accepts_all_def empty_db_def Let_def)
  then have changed:
    "orders (snd (post_payments_confirm sample_cache toss_confirms pg_accepts_all 1000 7
                    sample_body empty_db)) \<noteq> orders empty_db"
    by (auto simp: empty_db_def)
  from persisted_total_amount [OF surjective_pairing changed] stored changed show ?thesis
    by (auto simp: sample_body_def)
qed

section \<open>Order history\<close>

lemma select_user_orders_sorted:
  "sorted_wrt (\<lambda>a b. created_at b \<le> created_at a) (select_user_orders tbl uid)"
proof -
  let ?rows = "sort_key (\<lambda>r. - created_at r) (filter (\<lambda>r. user_id r = uid) tbl)"
  have "sorted (map (\<lambda>r. - created_at r) ?rows)"
    by (rule sorted_sort_key)
  then have "sorted_wrt (\<lambda>a b. created_at b \<le> created_at a) ?rows"
    by (simp add: sorted_map)
  then show ?thesis
    unfolding select_user_orders_def by (rule sorted_wrt_take)
qed

lemma select_user_orders_set:
  "set (select_user_orders tbl uid) \<subseteq> {r \<in> set tbl. user_id r = uid}"
proof -
  have "set (select_user_orders tbl uid)
          \<subseteq> set (sort_key (\<lambda>r. - created_at r) (filter (\<lambda>r. user_id r = uid) tbl))"
    unfolding select_user_orders_def by (rule set_take_subset)
  then show ?thesis
    by auto
qed

lemma select_user_orders_length:
  "length (select_user_orders tbl uid) = min 50 (length (filter (\<lambda>r. user_id r = uid) tbl))"
  by (simp add: select_user_orders_def min.commute)

text \<open>
  C8. A successful reply of \<open>GET /api/orders\<close> lists rows of the \<open>orders\<close> table that all belong
  to the requesting user, in the order of descending \<open>created_at\<close>, and never more than 50 of
  them: their number is the smaller of 50 and the number of the user's orders.
\<close>

theorem get_orders_newest_first:
  assumes "get_orders pg_up db uid = OrderList vs"
  shows "\<exists>rows. vs = map to_view rows
           \<and> (\<forall>r \<in> set rows. r \<in> set (orders db) \<and> user_id r = uid)
           \<and> sorted_wrt (\<lambda>a b. created_at b \<le> created_at a) rows
           \<and> sorted_wrt (\<lambda>a b. view_created_at b \<le> view_created_at a) vs
           \<and> length vs \<le> 50
           \<and> length vs = min 50 (length (filter (\<lambda>r. user_id r = uid) (orders db)))"
proof -
  let ?rows = "select_user_orders (orders db) uid"
  from assms have vs: "vs = map to_view ?rows"
    by (simp add: get_orders_def split: if_splits)
  have sorted: "sorted_wrt (\<lambda>a b. created_at b \<le> created_at a) ?rows"
    by (rule select_user_orders_sorted)
  then have "sorted_wrt (\<lambda>a b. view_created_at b \<le> view_created_at a) vs"
    by (simp add: vs sorted_wrt_map to_view_def)
  moreover have "\<forall>r \<in> set ?rows. r \<in> set (orders db) \<and> user_id r = uid"
    using select_user_orders_set [of "orders db" uid] by auto
  moreover have "length vs = min 50 (length (filter (\<lambda>r. user_id r = uid) (orders db)))"
    by (simp add: vs select_user_orders_length)
  ultimately show ?thesis
    using vs sorted by auto
qed

theorem get_orders_newest_first_witness:
  "get_orders True sample_db 7 = OrderList (map to_view [sample_order 3 7 300, sample_order 1 7 100])
   \<and> map view_id (map to_view [sample_order 3 7 300, sample_order 1 7 100]) = [3, 1]
   \<and> map view_created_at (map to_view [sample_order 3 7 300, sample_order 1 7 100]) = [300, 100]
   \<and> length (map to_view [sample_order 3 7 300, sample_order 1 7 100]) \<le> 50"
proof -
  have sel: "select_user_orders (orders sample_db) 7 = [sample_order 3 7 300, sample_order 1 7 100]"
    by (simp add: select_user_orders_def sample_db_def sample_order_def)
  then have run: "get_orders True sample_db 7
                    = OrderList (map to_view [sample_order 3 7 300, sample_order 1 7 100])"
    by (simp add: get_orders_def)
  from get_orders_newest_first [OF run] run show ?thesis
    by (simp add: to_view_def sample_order_def)
qed

end
